theory Spec2Isabelle
  imports Main "HOL-Library.Word"
begin

unbundle bit_operations_syntax

section \<open>Bytes and strings\<close>

text \<open>
  A Go \<^verbatim>\<open>[]byte\<close> is a list of 8-bit words; a Go \<^verbatim>\<open>string\<close> is a sequence of
  bytes, which is what \<^typ>\<open>string\<close> (a list of 8-bit characters) is. The conversion
  \<^verbatim>\<open>[]byte(s)\<close> copies the bytes unchanged.
\<close>

type_synonym byte = "8 word"
type_synonym bytes = "byte list"

definition byte_of_char :: "char \<Rightarrow> byte" where
  "byte_of_char c = of_nat (of_char c)"

definition bytes_of_string :: "string \<Rightarrow> bytes" where
  "bytes_of_string s = map byte_of_char s"

section \<open>Keccak-256 (the hash behind \<^verbatim>\<open>crypto.Keccak256Hash\<close>)\<close>

text \<open>
  The legacy Keccak-256 sponge: rate 136 bytes, capacity 64 bytes, padding byte \<open>0x01\<close>,
  final bit \<open>0x80\<close>, 24 rounds of Keccak-f[1600]. A lane is 64 bits, least significant
  bit first; the state is 25 lanes, lane \<open>(x, y)\<close> at index \<open>x + 5 * y\<close>.
\<close>

type_synonym lane = "bool list"

fun bits_of_int :: "nat \<Rightarrow> int \<Rightarrow> bool list" where
  "bits_of_int 0 n = []"
| "bits_of_int (Suc k) n = odd n # bits_of_int k (n div 2)"

fun int_of_bits :: "bool list \<Rightarrow> int" where
  "int_of_bits [] = 0"
| "int_of_bits (b # bs) = (if b then 1 else 0) + 2 * int_of_bits bs"

definition bits_of_byte :: "byte \<Rightarrow> bool list" where
  "bits_of_byte b = bits_of_int 8 (uint b)"

definition byte_of_bits :: "bool list \<Rightarrow> byte" where
  "byte_of_bits bs = word_of_int (int_of_bits bs)"

fun xorl :: "lane \<Rightarrow> lane \<Rightarrow> lane" where
  "xorl (a # as) (b # bs) = (a \<noteq> b) # xorl as bs"
| "xorl _ _ = []"

fun chil :: "lane \<Rightarrow> lane \<Rightarrow> lane \<Rightarrow> lane" where
  "chil (a # as) (b # bs) (c # cs) = (a \<noteq> (\<not> b \<and> c)) # chil as bs cs"
| "chil _ _ _ = []"

definition rotl64 :: "nat \<Rightarrow> lane \<Rightarrow> lane" where
  "rotl64 n w = drop (64 - n) w @ take (64 - n) w"

definition rot_tab :: "nat list" where
  "rot_tab = [0, 1, 62, 28, 27,  36, 44, 6, 55, 20,  3, 10, 43, 25, 39,
              41, 45, 15, 21, 8,  18, 2, 61, 56, 14]"

definition round_consts :: "int list" where
  "round_consts =
    [0x0000000000000001, 0x0000000000008082, 0x800000000000808A, 0x8000000080008000,
     0x000000000000808B, 0x0000000080000001, 0x8000000080008081, 0x8000000000008009,
     0x000000000000008A, 0x0000000000000088, 0x0000000080008009, 0x000000008000000A,
     0x000000008000808B, 0x800000000000008B, 0x8000000000008089, 0x8000000000008003,
     0x8000000000008002, 0x8000000000000080, 0x000000000000800A, 0x800000008000000A,
     0x8000000080008081, 0x8000000000008080, 0x0000000080000001, 0x8000000080008008]"

definition theta :: "lane list \<Rightarrow> lane list" where
  "theta a =
    (let c = map (\<lambda>x. xorl (a ! x) (xorl (a ! (x + 5)) (xorl (a ! (x + 10))
                        (xorl (a ! (x + 15)) (a ! (x + 20)))))) [0..<5];
         d = map (\<lambda>x. xorl (c ! ((x + 4) mod 5)) (rotl64 1 (c ! ((x + 1) mod 5)))) [0..<5]
     in map (\<lambda>i. xorl (a ! i) (d ! (i mod 5))) [0..<25])"

definition rho_pi :: "lane list \<Rightarrow> lane list" where
  "rho_pi a =
    map (\<lambda>j. let X = j mod 5; Y = j div 5; s = (X + 3 * Y) mod 5 + 5 * X
              in rotl64 (rot_tab ! s) (a ! s)) [0..<25]"

definition chi :: "lane list \<Rightarrow> lane list" where
  "chi b =
    map (\<lambda>j. let x = j mod 5; y = j div 5
              in chil (b ! j) (b ! ((x + 1) mod 5 + 5 * y)) (b ! ((x + 2) mod 5 + 5 * y)))
        [0..<25]"

definition iota :: "int \<Rightarrow> lane list \<Rightarrow> lane list" where
  "iota rc a = xorl (hd a) (bits_of_int 64 rc) # tl a"

definition keccak_round :: "lane list \<Rightarrow> int \<Rightarrow> lane list" where
  "keccak_round a rc = iota rc (chi (rho_pi (theta a)))"

definition keccak_f :: "lane list \<Rightarrow> lane list" where
  "keccak_f a = foldl keccak_round a round_consts"

fun lanes_of_block :: "nat \<Rightarrow> bytes \<Rightarrow> lane list" where
  "lanes_of_block 0 bs = []"
| "lanes_of_block (Suc n) bs =
     concat (map bits_of_byte (take 8 bs)) # lanes_of_block n (drop 8 bs)"

definition keccak_pad :: "bytes \<Rightarrow> bytes" where
  "keccak_pad m =
    (let r = 136 - length m mod 136
     in if r = 1 then m @ [0x81] else m @ [0x01] @ replicate (r - 2) 0 @ [0x80])"

fun absorb :: "lane list \<Rightarrow> bytes \<Rightarrow> nat \<Rightarrow> lane list" where
  "absorb st bs 0 = st"
| "absorb st bs (Suc n) =
     absorb (keccak_f (map2 xorl st
               (lanes_of_block 17 (take 136 bs) @ replicate 8 (replicate 64 False))))
            (drop 136 bs) n"

definition Keccak256 :: "bytes \<Rightarrow> bytes" where
  "Keccak256 m =
    (let p = keccak_pad m;
         st = absorb (replicate 25 (replicate 64 False)) p (length p div 136)
     in map (\<lambda>i. byte_of_bits (take 8 (drop (8 * (i mod 8)) (st ! (i div 8))))) [0..<32])"

section \<open>Library functions the source calls\<close>

subsection \<open>\<^verbatim>\<open>encoding/hex\<close>\<close>

definition hextable :: string where
  "hextable = ''0123456789abcdef''"

definition hex_EncodeToString :: "bytes \<Rightarrow> string" where
  "hex_EncodeToString src =
     concat (map (\<lambda>v. [hextable ! unat (drop_bit 4 v), hextable ! unat (v AND 0x0f)]) src)"

text \<open>\<^verbatim>\<open>reverseHexTable\<close>: the value of a hex digit of either case, nothing for any other byte.\<close>

definition fromHexChar :: "char \<Rightarrow> byte option" where
  "fromHexChar c =
     (let n = (of_char c :: nat)
      in if 48 \<le> n \<and> n \<le> 57 then Some (of_nat (n - 48))
         else if 97 \<le> n \<and> n \<le> 102 then Some (of_nat (n - 87))
         else if 65 \<le> n \<and> n \<le> 70 then Some (of_nat (n - 55))
         else None)"

datatype hex_error = InvalidByteError char | ErrLength

text \<open>
  \<^verbatim>\<open>hex.DecodeString\<close> decodes pair by pair and returns the bytes decoded so far together
  with the error, if any.
\<close>

fun hex_DecodeString :: "string \<Rightarrow> bytes \<times> hex_error option" where
  "hex_DecodeString [] = ([], None)"
| "hex_DecodeString [p] =
     (case fromHexChar p of
        None \<Rightarrow> ([], Some (InvalidByteError p))
      | Some a \<Rightarrow> ([], Some ErrLength))"
| "hex_DecodeString (p # q # rest) =
     (case fromHexChar p of
        None \<Rightarrow> ([], Some (InvalidByteError p))
      | Some a \<Rightarrow>
          (case fromHexChar q of
             None \<Rightarrow> ([], Some (InvalidByteError q))
           | Some b \<Rightarrow>
               (case hex_DecodeString rest of
                  (bs, e) \<Rightarrow> ((push_bit 4 a OR b) # bs, e))))"

subsection \<open>\<^verbatim>\<open>common/hexutil\<close>\<close>

datatype hexutil_error = ErrEmptyString | ErrMissingPrefix | ErrSyntax | ErrOddLength

definition has0xPrefix :: "string \<Rightarrow> bool" where
  "has0xPrefix input \<longleftrightarrow>
     2 \<le> length input \<and> input ! 0 = CHR ''0'' \<and> (input ! 1 = CHR ''x'' \<or> input ! 1 = CHR ''X'')"

fun mapError :: "hex_error \<Rightarrow> hexutil_error" where
  "mapError (InvalidByteError c) = ErrSyntax"
| "mapError ErrLength = ErrOddLength"

definition hexutil_Decode :: "string \<Rightarrow> hexutil_error + bytes" where
  "hexutil_Decode input =
     (if input = [] then Inl ErrEmptyString
      else if \<not> has0xPrefix input then Inl ErrMissingPrefix
      else case hex_DecodeString (drop 2 input) of
             (b, None) \<Rightarrow> Inr b
           | (b, Some e) \<Rightarrow> Inl (mapError e))"

definition hexutil_Encode :: "bytes \<Rightarrow> string" where
  "hexutil_Encode b = ''0x'' @ hex_EncodeToString b"

subsection \<open>\<^verbatim>\<open>common.Address\<close>, a \<^verbatim>\<open>[20]byte\<close>\<close>

typedef address = "{bs :: bytes. length bs = 20}"
  by (rule exI [of _ "replicate 20 0"]) simp

setup_lifting type_definition_address

lift_definition Address_Bytes :: "address \<Rightarrow> bytes" is "\<lambda>bs :: bytes. bs" .

text \<open>\<^verbatim>\<open>SetBytes\<close>: keep the last 20 bytes of a longer slice, pad a shorter one on the left.\<close>

lift_definition BytesToAddress :: "bytes \<Rightarrow> address" is
  "\<lambda>b :: bytes. let b' = (if 20 < length b then drop (length b - 20) b else b)
       in replicate (20 - length b') 0 @ b'"
  by (simp add: Let_def)

text \<open>\<^verbatim>\<open>Hex2Bytes\<close> drops the decoding error and keeps what was decoded.\<close>

definition FromHex :: "string \<Rightarrow> bytes" where
  "FromHex s =
     (let s1 = (if has0xPrefix s then drop 2 s else s);
          s2 = (if odd (length s1) then CHR ''0'' # s1 else s1)
      in fst (hex_DecodeString s2))"

definition HexToAddress :: "string \<Rightarrow> address" where
  "HexToAddress s = BytesToAddress (FromHex s)"

text \<open>
  \<^verbatim>\<open>Address.Hex\<close> is the EIP-55 form: the lowercase hex digits, hashed; a letter is put
  in upper case (\<^verbatim>\<open>buf[i] -= 32\<close>) where the matching nibble of the hash exceeds 7.
\<close>

definition checksumHex :: "address \<Rightarrow> string" where
  "checksumHex a =
     (let buf = hex_EncodeToString (Address_Bytes a);
          hash = Keccak256 (bytes_of_string buf)
      in map (\<lambda>i. let hashByte = hash ! (i div 2);
                       nibble = (if even i then drop_bit 4 hashByte else hashByte AND 0xf);
                       c = buf ! i
                   in if 57 < (of_char c :: nat) \<and> 7 < nibble
                      then char_of ((of_char c :: nat) - 32) else c)
             [0..<length buf])"

definition Address_Hex :: "address \<Rightarrow> string" where
  "Address_Hex a = ''0x'' @ checksumHex a"

subsection \<open>\<^verbatim>\<open>math/big\<close> and \<^verbatim>\<open>fmt\<close>\<close>

datatype lib_error =
    ErrInvalidMsgLen | ErrInvalidSignatureLen | ErrInvalidRecoveryID
  | ErrRecoverFailed | ErrSignFailed

datatype json_error = UnsupportedTypeError | UnsupportedValueError | MarshalerError

text \<open>
  An error is a run-time panic, an error of a library, \<^verbatim>\<open>fmt.Errorf\<close> of a plain text, or
  \<^verbatim>\<open>fmt.Errorf("...: %w", err)\<close> wrapping another error.
\<close>

datatype error =
    Panic string
  | Lib lib_error
  | Hexutil hexutil_error
  | Json json_error
  | Errorf string
  | Wrapped string error

text \<open>A panic unwinds through the caller; a returned error is wrapped by it.\<close>

fun wrap :: "string \<Rightarrow> error \<Rightarrow> error" where
  "wrap msg (Panic p) = Panic p"
| "wrap msg e = Wrapped msg e"

fun be_bytes :: "nat \<Rightarrow> int \<Rightarrow> bytes" where
  "be_bytes 0 v = []"
| "be_bytes (Suc n) v = be_bytes n (v div 256) @ [word_of_int (v mod 256)]"

text \<open>
  \<^verbatim>\<open>x.FillBytes(buf)\<close> stores the absolute value of \<open>x\<close> big-endian, zero-extended to the
  length of \<open>buf\<close>, and panics when it does not fit.
\<close>

definition FillBytes :: "int \<Rightarrow> nat \<Rightarrow> error + bytes" where
  "FillBytes x n =
     (if 256 ^ n \<le> \<bar>x\<bar> then Inl (Panic ''math/big: buffer too small to fit value'')
      else Inr (be_bytes n \<bar>x\<bar>))"

function dec_digits :: "int \<Rightarrow> string" where
  "dec_digits n =
     (if n < 10 then [char_of (48 + n)]
      else dec_digits (n div 10) @ [char_of (48 + n mod 10)])"
  by pat_completeness auto
termination
  by (relation "measure nat") auto

text \<open>\<^verbatim>\<open>fmt.Sprintf("%d", n)\<close> for a signed 64-bit \<open>n\<close>.\<close>

definition Sprintf_d :: "64 word \<Rightarrow> string" where
  "Sprintf_d n = (if sint n < 0 then CHR ''-'' # dec_digits (- sint n) else dec_digits (sint n))"

subsection \<open>\<^verbatim>\<open>crypto\<close>: secp256k1 signing and recovery\<close>

text \<open>
  The elliptic-curve operations are parameters: \<open>Sign\<close> is \<^verbatim>\<open>crypto.Sign\<close>, \<open>SigToPub\<close> is
  \<^verbatim>\<open>crypto.SigToPub\<close>, \<open>PublicKey\<close> is the field of that name of a private key and
  \<open>PubkeyToAddress\<close> is \<^verbatim>\<open>crypto.PubkeyToAddress\<close>.
\<close>

record ('k, 'p) crypto =
  Sign :: "bytes \<Rightarrow> 'k \<Rightarrow> lib_error + bytes"
  SigToPub :: "bytes \<Rightarrow> bytes \<Rightarrow> lib_error + 'p"
  PublicKey :: "'k \<Rightarrow> 'p"
  PubkeyToAddress :: "'p \<Rightarrow> address"

text \<open>
  What go-ethereum documents of these two functions. \<^verbatim>\<open>crypto.Sign\<close>: ``the produced
  signature is in the [R || S || V] format where V is 0 or 1''. \<^verbatim>\<open>crypto.SigToPub\<close>
  hands the signature to \<^verbatim>\<open>secp256k1.RecoverPubkey\<close>, whose \<^verbatim>\<open>checkSignature\<close> returns
  \<^verbatim>\<open>ErrInvalidRecoveryID\<close> for a recovery byte of 4 or more (the pure-Go build rejects
  8 or more); a recovery byte of 27 or 28 is rejected by both. go-ethereum's own callers
  (\<^verbatim>\<open>EcRecover\<close> of its API, for one) subtract 27 from a byte of 27 or 28 before they call
  \<^verbatim>\<open>crypto.SigToPub\<close>.
\<close>

definition Sign_V_is_0_or_1 :: "('k, 'p) crypto \<Rightarrow> bool" where
  "Sign_V_is_0_or_1 lib \<longleftrightarrow>
     (\<forall>h k sig. Sign lib h k = Inr sig \<longrightarrow> length sig = 65 \<and> (sig ! 64 = 0 \<or> sig ! 64 = 1))"

definition SigToPub_rejects_27_28 :: "('k, 'p) crypto \<Rightarrow> bool" where
  "SigToPub_rejects_27_28 lib \<longleftrightarrow>
     (\<forall>h sig. length sig = 65 \<and> (sig ! 64 = 27 \<or> sig ! 64 = 28) \<longrightarrow> isl (SigToPub lib h sig))"

text \<open>A stand-in library for concrete instances: one key, a fixed signature with V = 0.\<close>

definition toy_crypto :: "(unit, unit) crypto" where
  "toy_crypto =
     \<lparr> Sign = (\<lambda>h k. Inr (replicate 64 1 @ [0])),
       SigToPub = (\<lambda>h sig. if length sig \<noteq> 65 then Inl ErrInvalidSignatureLen
                            else if 4 \<le> sig ! 64 then Inl ErrInvalidRecoveryID
                            else Inr ()),
       PublicKey = (\<lambda>k. ()),
       PubkeyToAddress = (\<lambda>p. BytesToAddress []) \<rparr>"

subsection \<open>\<^verbatim>\<open>encoding/base64\<close>, \<^verbatim>\<open>strings\<close>, \<^verbatim>\<open>crypto/hmac\<close>, \<^verbatim>\<open>encoding/json\<close>\<close>

definition encodeStd :: string where
  "encodeStd = ''ABCDEFGHIJKLMNOPQRSTUVWXYZabcdefghijklmnopqrstuvwxyz0123456789+/''"

text \<open>
  \<^verbatim>\<open>Encoding.EncodeToString\<close> with padding character \<open>=\<close>: three bytes give four characters
  of the alphabet, a rest of one or two bytes is padded.
\<close>

fun base64_encode :: "string \<Rightarrow> bytes \<Rightarrow> string" where
  "base64_encode al [] = []"
| "base64_encode al [a] =
     [al ! unat (drop_bit 2 a), al ! unat (push_bit 4 (a AND 0x3)), CHR ''='', CHR ''='']"
| "base64_encode al [a, b] =
     [al ! unat (drop_bit 2 a), al ! unat (push_bit 4 (a AND 0x3) OR drop_bit 4 b),
      al ! unat (push_bit 2 (b AND 0xf)), CHR ''='']"
| "base64_encode al (a # b # c # rest) =
     [al ! unat (drop_bit 2 a), al ! unat (push_bit 4 (a AND 0x3) OR drop_bit 4 b),
      al ! unat (push_bit 2 (b AND 0xf) OR drop_bit 6 c), al ! unat (c AND 0x3f)]
     @ base64_encode al rest"

definition StdEncoding_EncodeToString :: "bytes \<Rightarrow> string" where
  "StdEncoding_EncodeToString src = base64_encode encodeStd src"

text \<open>
  \<^verbatim>\<open>strings.ReplaceAll\<close>: every non-overlapping instance of \<open>old\<close>, from the left. For an
  empty \<open>old\<close> the replacement goes before every character and at the end (the strings
  here are ASCII, so characters are bytes).
\<close>

function ReplaceAll :: "string \<Rightarrow> string \<Rightarrow> string \<Rightarrow> string" where
  "ReplaceAll s old new =
     (if old = [] then concat (map (\<lambda>c. new @ [c]) s) @ new
      else if s = [] then []
      else if take (length old) s = old then new @ ReplaceAll (drop (length old) s) old new
      else hd s # ReplaceAll (tl s) old new)"
  by pat_completeness auto
termination
  by (relation "measure (\<lambda>(s, old, new). length s)") auto

datatype base64_error = CorruptInputError nat

text \<open>
  \<open>HMAC_SHA256 key msg\<close> is \<^verbatim>\<open>hmac.New(sha256.New, key)\<close>, \<^verbatim>\<open>Write(msg)\<close>, \<^verbatim>\<open>Sum(nil)\<close>;
  \<open>URLEncoding_DecodeString\<close> is \<^verbatim>\<open>base64.URLEncoding.DecodeString\<close>. Both are parameters.
\<close>

record stdlib =
  HMAC_SHA256 :: "bytes \<Rightarrow> bytes \<Rightarrow> bytes"
  URLEncoding_DecodeString :: "string \<Rightarrow> base64_error + bytes"

section \<open>The EIP-712 signer (\<^verbatim>\<open>package auth\<close>)\<close>

definition MSG_TO_SIGN :: string where
  "MSG_TO_SIGN = ''This message attests that I control the given wallet''"

record EIP712Domain =
  Name :: string
  Version :: string
  ChainID :: "64 word"
  Salt :: string
  VerifyingContract :: string

record EIP712Type =
  NameT :: string
  TypeT :: string

record ClobAuthData =
  Address :: string
  Timestamp :: string
  Nonce :: "64 word"
  Message :: string

text \<open>
  \<^verbatim>\<open>TypedData.Message\<close> is an \<^verbatim>\<open>interface{}\<close>: any value \<^verbatim>\<open>json.Marshal\<close> takes. Its type is
  the parameter \<open>'m\<close>, and \<^verbatim>\<open>json.Marshal\<close> is a parameter of the functions that call it.
\<close>

record 'm TypedData =
  Types :: "string \<rightharpoonup> EIP712Type list"
  PrimaryType :: string
  Domain :: EIP712Domain
  MessageTD :: 'm

text \<open>Reading a Go map at a missing key gives the zero value, here the nil slice.\<close>

definition map_index :: "('a \<rightharpoonup> 'b list) \<Rightarrow> 'a \<Rightarrow> 'b list" where
  "map_index m k = (case m k of None \<Rightarrow> [] | Some v \<Rightarrow> v)"

definition getDomainSeparator :: "EIP712Domain \<Rightarrow> error + bytes" where
  "getDomainSeparator domain =
     (let typeHash = Keccak256 (bytes_of_string
                       ''EIP712Domain(string name,string version,uint256 chainId)'');
          nameHash = Keccak256 (bytes_of_string (Name domain));
          versionHash = Keccak256 (bytes_of_string (Version domain));
          chainId = sint (ChainID domain)
      in case FillBytes chainId 32 of
           Inl e \<Rightarrow> Inl e
         | Inr chainIdBytes \<Rightarrow>
             Inr (Keccak256 (((typeHash @ nameHash) @ versionHash) @ chainIdBytes)))"

definition getTypeHash :: "EIP712Type list \<Rightarrow> error + bytes" where
  "getTypeHash types =
     (let typeString =
            ''ClobAuth(address address,string timestamp,uint256 nonce,string message)''
      in Inr (Keccak256 (bytes_of_string typeString)))"

definition encodeClobAuthData :: "ClobAuthData \<Rightarrow> error + bytes" where
  "encodeClobAuthData data =
     (let address = HexToAddress (Address data);
          nonce = uint (Nonce data);
          addressBytes = replicate 12 0 @ Address_Bytes address;
          timestampHash = Keccak256 (bytes_of_string (Timestamp data))
      in case FillBytes nonce 32 of
           Inl e \<Rightarrow> Inl e
         | Inr nonceBytes \<Rightarrow>
             (let messageHash = Keccak256 (bytes_of_string (Message data))
              in Inr (((addressBytes @ timestampHash) @ nonceBytes) @ messageHash)))"

text \<open>
  The digest \<^verbatim>\<open>hash\<close> that \<^verbatim>\<open>BuildClobEip712Signature\<close> computes before it signs (the
  function's lines up to \<^verbatim>\<open>crypto.Keccak256Hash(append(append([]byte("\x19\x01"), ...\<close>).
\<close>

definition ClobAuthHash ::
  "('k, 'p) crypto \<Rightarrow> 'k \<Rightarrow> 64 word \<Rightarrow> 64 word \<Rightarrow> 64 word \<Rightarrow> error + bytes" where
  "ClobAuthHash lib privateKey chainID timestamp nonce =
     (let address = Address_Hex (PubkeyToAddress lib (PublicKey lib privateKey));
          domain = \<lparr> Name = ''ClobAuthDomain'', Version = ''1'', ChainID = chainID,
                     Salt = [], VerifyingContract = [] \<rparr>;
          types = [''ClobAuth'' \<mapsto>
                     [\<lparr> NameT = ''address'', TypeT = ''address'' \<rparr>,
                      \<lparr> NameT = ''timestamp'', TypeT = ''string'' \<rparr>,
                      \<lparr> NameT = ''nonce'', TypeT = ''uint256'' \<rparr>,
                      \<lparr> NameT = ''message'', TypeT = ''string'' \<rparr>]];
          message = \<lparr> Address = address, Timestamp = Sprintf_d timestamp,
                      Nonce = nonce, Message = MSG_TO_SIGN \<rparr>
      in case getDomainSeparator domain of
           Inl e \<Rightarrow> Inl (wrap ''failed to get domain separator'' e)
         | Inr domainSeparator \<Rightarrow>
       (case getTypeHash (map_index types ''ClobAuth'') of
           Inl e \<Rightarrow> Inl (wrap ''failed to get type hash'' e)
         | Inr typeHash \<Rightarrow>
       (case encodeClobAuthData message of
           Inl e \<Rightarrow> Inl (wrap ''failed to encode data'' e)
         | Inr encodeData \<Rightarrow>
             (let structHash = Keccak256 (typeHash @ encodeData)
              in Inr (Keccak256 (([0x19, 0x01] @ domainSeparator) @ structHash))))))"

definition BuildClobEip712Signature ::
  "('k, 'p) crypto \<Rightarrow> 'k \<Rightarrow> 64 word \<Rightarrow> 64 word \<Rightarrow> 64 word \<Rightarrow> error + string" where
  "BuildClobEip712Signature lib privateKey chainID timestamp nonce =
     (case ClobAuthHash lib privateKey chainID timestamp nonce of
        Inl e \<Rightarrow> Inl e
      | Inr hash \<Rightarrow>
     (case Sign lib hash privateKey of
        Inl e \<Rightarrow> Inl (Wrapped ''failed to sign hash'' (Lib e))
      | Inr signature \<Rightarrow>
          if length signature \<le> 64 then Inl (Panic ''index out of range [64]'')
          else (let signature' = (if signature ! 64 < 27
                                  then signature[64 := signature ! 64 + 27] else signature)
                in Inr (hexutil_Encode signature'))))"

definition getMessageHash ::
  "('m \<Rightarrow> json_error + bytes) \<Rightarrow> 'm TypedData \<Rightarrow> error + bytes" where
  "getMessageHash json_Marshal typedData =
     (case json_Marshal (MessageTD typedData) of
        Inl e \<Rightarrow> Inl (Wrapped ''failed to marshal message'' (Json e))
      | Inr messageBytes \<Rightarrow> Inr (Keccak256 messageBytes))"

definition getTypedDataHash ::
  "('m \<Rightarrow> json_error + bytes) \<Rightarrow> 'm TypedData \<Rightarrow> error + bytes" where
  "getTypedDataHash json_Marshal typedData =
     (case getDomainSeparator (Domain typedData) of
        Inl e \<Rightarrow> Inl e
      | Inr domainSeparator \<Rightarrow>
     (case getMessageHash json_Marshal typedData of
        Inl e \<Rightarrow> Inl e
      | Inr messageHash \<Rightarrow>
          Inr (Keccak256 ([0x19, 0x01] @ domainSeparator @ messageHash))))"

definition SignTypedData ::
  "('k, 'p) crypto \<Rightarrow> ('m \<Rightarrow> json_error + bytes) \<Rightarrow> 'k \<Rightarrow> 'm TypedData \<Rightarrow> error + string" where
  "SignTypedData lib json_Marshal privateKey typedData =
     (case getTypedDataHash json_Marshal typedData of
        Inl e \<Rightarrow> Inl (wrap ''failed to get typed data hash'' e)
      | Inr hash \<Rightarrow>
     (case Sign lib hash privateKey of
        Inl e \<Rightarrow> Inl (Wrapped ''failed to sign hash'' (Lib e))
      | Inr signature \<Rightarrow> Inr (hexutil_Encode signature)))"

text \<open>The adjustment of the recovery byte that both recovery functions make in place.\<close>

definition adjust_v :: "bytes \<Rightarrow> bytes" where
  "adjust_v sig = (if sig ! 64 \<noteq> 27 \<and> sig ! 64 \<noteq> 28 then sig[64 := sig ! 64 + 27] else sig)"

definition RecoverAddress :: "('k, 'p) crypto \<Rightarrow> bytes \<Rightarrow> string \<Rightarrow> error + address" where
  "RecoverAddress lib hash signature =
     (case hexutil_Decode signature of
        Inl e \<Rightarrow> Inl (Wrapped ''failed to decode signature'' (Hexutil e))
      | Inr sig \<Rightarrow>
          if length sig \<noteq> 65 then Inl (Errorf ''signature must be 65 bytes long'')
          else (case SigToPub lib hash (adjust_v sig) of
                  Inl e \<Rightarrow> Inl (Wrapped ''failed to recover public key'' (Lib e))
                | Inr pubkey \<Rightarrow> Inr (PubkeyToAddress lib pubkey)))"

section \<open>The HMAC request signer and the wallet (\<^verbatim>\<open>auth/hmac.go\<close>)\<close>

definition BuildPolyHmacSignature ::
  "stdlib \<Rightarrow> string \<Rightarrow> 64 word \<Rightarrow> string \<Rightarrow> string \<Rightarrow> string option \<Rightarrow> string" where
  "BuildPolyHmacSignature std secret timestamp method requestPath body =
     (let message = Sprintf_d timestamp @ method @ requestPath;
          message = (case body of None \<Rightarrow> message | Some b \<Rightarrow> message @ b);
          base64Secret = (case URLEncoding_DecodeString std secret of
                            Inl err \<Rightarrow> bytes_of_string secret
                          | Inr decoded \<Rightarrow> decoded);
          signature = HMAC_SHA256 std base64Secret (bytes_of_string message);
          sig = StdEncoding_EncodeToString signature;
          sigUrlSafe = ReplaceAll (ReplaceAll sig ''+'' ''-'') ''/'' ''_''
      in sigUrlSafe)"

definition VerifyHmacSignature ::
  "stdlib \<Rightarrow> string \<Rightarrow> 64 word \<Rightarrow> string \<Rightarrow> string \<Rightarrow> string option \<Rightarrow> string \<Rightarrow> bool" where
  "VerifyHmacSignature std secret timestamp method requestPath body signature =
     (let expectedSig = BuildPolyHmacSignature std secret timestamp method requestPath body
      in expectedSig = signature)"

definition BuildMessage :: "64 word \<Rightarrow> string \<Rightarrow> string \<Rightarrow> string option \<Rightarrow> string" where
  "BuildMessage timestamp method requestPath body =
     (let message = Sprintf_d timestamp @ method @ requestPath
      in case body of None \<Rightarrow> message | Some b \<Rightarrow> message @ b)"

record 'k Wallet =
  privateKey :: 'k
  address :: address

definition NewWalletFromPrivateKey :: "('k, 'p) crypto \<Rightarrow> 'k \<Rightarrow> 'k Wallet" where
  "NewWalletFromPrivateKey lib key =
     \<lparr> privateKey = key, address = PubkeyToAddress lib (PublicKey lib key) \<rparr>"

definition GetAddress :: "'k Wallet \<Rightarrow> address" where
  "GetAddress w = address w"

definition GetAddressHex :: "'k Wallet \<Rightarrow> string" where
  "GetAddressHex w = Address_Hex (address w)"

definition SignMessage :: "('k, 'p) crypto \<Rightarrow> 'k Wallet \<Rightarrow> bytes \<Rightarrow> error + string" where
  "SignMessage lib w message =
     (let hash = Keccak256 message
      in case Sign lib hash (privateKey w) of
           Inl e \<Rightarrow> Inl (Wrapped ''failed to sign message'' (Lib e))
         | Inr signature \<Rightarrow> Inr (hexutil_Encode signature))"

definition SignHash :: "('k, 'p) crypto \<Rightarrow> 'k Wallet \<Rightarrow> bytes \<Rightarrow> error + string" where
  "SignHash lib w hash =
     (case Sign lib hash (privateKey w) of
        Inl e \<Rightarrow> Inl (Wrapped ''failed to sign hash'' (Lib e))
      | Inr signature \<Rightarrow> Inr (hexutil_Encode signature))"

definition RecoverAddressFromMessage ::
  "('k, 'p) crypto \<Rightarrow> bytes \<Rightarrow> string \<Rightarrow> error + address" where
  "RecoverAddressFromMessage lib message signature =
     (case hexutil_Decode signature of
        Inl e \<Rightarrow> Inl (Wrapped ''failed to decode signature'' (Hexutil e))
      | Inr sig \<Rightarrow>
          if length sig \<noteq> 65 then Inl (Errorf ''signature must be 65 bytes long'')
          else (let hash = Keccak256 message
                in case SigToPub lib hash (adjust_v sig) of
                     Inl e \<Rightarrow> Inl (Wrapped ''failed to recover public key'' (Lib e))
                   | Inr pubkey \<Rightarrow> Inr (PubkeyToAddress lib pubkey)))"

definition VerifyMessageSignature ::
  "('k, 'p) crypto \<Rightarrow> bytes \<Rightarrow> string \<Rightarrow> address \<Rightarrow> error + bool" where
  "VerifyMessageSignature lib message signature expectedAddress =
     (case RecoverAddressFromMessage lib message signature of
        Inl e \<Rightarrow> Inl e
      | Inr recoveredAddress \<Rightarrow> Inr (recoveredAddress = expectedAddress))"

section \<open>The specification's formulae\<close>

text \<open>
  These follow the wording of the specification, to be compared with the functions above.
  \<open>be32 n\<close> is the unsigned integer \<open>n\<close> in 32-byte big-endian form: byte \<open>i\<close> is the
  digit of weight \<open>256 ^ (31 - i)\<close>.
\<close>

definition be32 :: "nat \<Rightarrow> bytes" where
  "be32 n = map (\<lambda>i. of_nat (n div 256 ^ (31 - i))) [0..<32]"

definition enc_address :: "address \<Rightarrow> bytes" where
  "enc_address a = replicate 12 0 @ Address_Bytes a"

definition enc_string :: "string \<Rightarrow> bytes" where
  "enc_string s = Keccak256 (bytes_of_string s)"

definition spec_domainSeparator :: "string \<Rightarrow> string \<Rightarrow> nat \<Rightarrow> bytes" where
  "spec_domainSeparator name version chainId =
     Keccak256 (enc_string ''EIP712Domain(string name,string version,uint256 chainId)''
                @ enc_string name @ enc_string version @ be32 chainId)"

definition spec_structHash :: "address \<Rightarrow> string \<Rightarrow> nat \<Rightarrow> string \<Rightarrow> bytes" where
  "spec_structHash addr timestamp nonce message =
     Keccak256 (enc_string
                  ''ClobAuth(address address,string timestamp,uint256 nonce,string message)''
                @ enc_address addr @ enc_string timestamp @ be32 nonce @ enc_string message)"

definition spec_digest :: "bytes \<Rightarrow> bytes \<Rightarrow> bytes" where
  "spec_digest domainSeparator structHash =
     Keccak256 ([0x19, 0x01] @ domainSeparator @ structHash)"

definition canonicalMessage :: "64 word \<Rightarrow> string \<Rightarrow> string \<Rightarrow> string option \<Rightarrow> string" where
  "canonicalMessage timestamp method path body =
     Sprintf_d timestamp @ method @ path @ (case body of None \<Rightarrow> [] | Some b \<Rightarrow> b)"

definition translate :: "char \<Rightarrow> char" where
  "translate c = (if c = CHR ''+'' then CHR ''-'' else if c = CHR ''/'' then CHR ''_'' else c)"

definition spec_hmac_key :: "stdlib \<Rightarrow> string \<Rightarrow> bytes" where
  "spec_hmac_key std secret =
     (case URLEncoding_DecodeString std secret of
        Inr decoded \<Rightarrow> decoded
      | Inl err \<Rightarrow> bytes_of_string secret)"

definition spec_hmac_sign ::
  "stdlib \<Rightarrow> string \<Rightarrow> 64 word \<Rightarrow> string \<Rightarrow> string \<Rightarrow> string option \<Rightarrow> string" where
  "spec_hmac_sign std secret timestamp method path body =
     map translate
       (StdEncoding_EncodeToString
          (HMAC_SHA256 std (spec_hmac_key std secret)
             (bytes_of_string (canonicalMessage timestamp method path body))))"

text \<open>ASCII lower case, to compare a mixed-case hex string with the lowercase encoding.\<close>

definition to_lower :: "char \<Rightarrow> char" where
  "to_lower c =
     (let n = (of_char c :: nat)
      in if 65 \<le> n \<and> n \<le> 90 then char_of (n + 32) else c)"

definition is_lower_hex :: "char \<Rightarrow> bool" where
  "is_lower_hex c \<longleftrightarrow> c \<in> set hextable"

definition is_hex_digit :: "char \<Rightarrow> bool" where
  "is_hex_digit c \<longleftrightarrow> fromHexChar c \<noteq> None"

text \<open>
  The EIP-55 form of 40 lowercase hex digits: digit \<open>i\<close> is put in upper case when it is
  a letter and nibble \<open>i\<close> of the Keccak-256 hash of the 40 digits (as ASCII) is 8 or
  more; the nibbles of a byte are its high half, then its low half.
\<close>

definition to_upper :: "char \<Rightarrow> char" where
  "to_upper c =
     (let n = (of_char c :: nat)
      in if 97 \<le> n \<and> n \<le> 122 then char_of (n - 32) else c)"

definition nibbles_of :: "bytes \<Rightarrow> nat list" where
  "nibbles_of hash = concat (map (\<lambda>b. [unat b div 16, unat b mod 16]) hash)"

definition eip55_checksum :: "string \<Rightarrow> string" where
  "eip55_checksum lower =
     map2 (\<lambda>c n. if c \<in> set ''abcdef'' \<and> 8 \<le> n then to_upper c else c)
       lower (nibbles_of (Keccak256 (bytes_of_string lower)))"

text \<open>The address of an EIP-55 test vector, and a wallet that holds it.\<close>

definition vector_address_bytes :: bytes where
  "vector_address_bytes =
     [0x5a, 0xae, 0xb6, 0x05, 0x3f, 0x3e, 0x94, 0xc9, 0xb9, 0xa0,
      0x9f, 0x33, 0x66, 0x94, 0x35, 0xe7, 0xef, 0x1b, 0xea, 0xed]"

definition vector_wallet :: "unit Wallet" where
  "vector_wallet = \<lparr> privateKey = (), address = BytesToAddress vector_address_bytes \<rparr>"

text \<open>One character of the checksummed form, as a function of the lowercase one.\<close>

definition upper_if :: "bool \<Rightarrow> char \<Rightarrow> char" where
  "upper_if u c = (if 57 < (of_char c :: nat) \<and> u then char_of ((of_char c :: nat) - 32) else c)"

declare ReplaceAll.simps [simp del] dec_digits.simps [simp del]

section \<open>Properties of the library functions\<close>

lemma length_Keccak256: "length (Keccak256 m) = 32"
  by (simp add: Keccak256_def Let_def)

text \<open>The Keccak-256 hash of the empty string, as published.\<close>

lemma Keccak256_empty:
  "hexutil_Encode (Keccak256 []) =
     ''0xc5d2460186f7233c927e7db2dcc703c0e500b653ca82273b7bfad8045d85a470''"
  by code_simp

subsection \<open>Hex encoding and decoding\<close>

lemma nibble_cases:
  assumes "k < (16::nat)"
  obtains "k = 0" | "k = 1" | "k = 2" | "k = 3" | "k = 4" | "k = 5" | "k = 6" | "k = 7"
        | "k = 8" | "k = 9" | "k = 10" | "k = 11" | "k = 12" | "k = 13" | "k = 14" | "k = 15"
  using assms by atomize_elim arith

lemma fromHexChar_hextable:
  assumes "k < 16"
  shows "fromHexChar (hextable ! k) = Some (of_nat k)"
  using assms by (rule nibble_cases) (simp_all add: hextable_def fromHexChar_def)

lemma unat_hi_nibble: "unat (drop_bit 4 (v :: byte)) < 16"
proof -
  have "unat v < 256" using unsigned_less [of v, where 'a = nat] by simp
  have "unat (drop_bit 4 v) = drop_bit 4 (unat v)" by (rule unat_drop_bit_eq)
  also have "\<dots> = unat v div 2 ^ 4" by (rule drop_bit_eq_div)
  finally show ?thesis using \<open>unat v < 256\<close> by simp
qed

lemma lo_nibble_mask: "(v :: byte) AND 0xf = take_bit 4 v"
proof -
  have "(0xf :: byte) = mask 4" by (simp add: mask_eq_exp_minus_1)
  then show ?thesis by (simp add: take_bit_eq_mask)
qed

lemma unat_lo_nibble: "unat ((v :: byte) AND 0xf) < 16"
proof -
  have "take_bit 4 (unat v) < 2 ^ 4" by (rule take_bit_nat_less_exp)
  then show ?thesis by (simp add: lo_nibble_mask unsigned_take_bit_eq)
qed

lemma nibbles_join: "push_bit 4 (drop_bit 4 (v :: byte)) OR (v AND 0xf) = v"
  unfolding lo_nibble_mask
  by (rule bit_word_eqI) (auto simp: bit_simps)

lemma hex_DecodeString_Encode: "hex_DecodeString (hex_EncodeToString bs) = (bs, None)"
proof (induction bs)
  case Nil
  then show ?case by (simp add: hex_EncodeToString_def)
next
  case (Cons v bs)
  have hi: "fromHexChar (hextable ! unat (drop_bit 4 v)) = Some (drop_bit 4 v)"
    using fromHexChar_hextable [OF unat_hi_nibble [of v]] by simp
  have lo: "fromHexChar (hextable ! unat (v AND 0xf)) = Some (v AND 0xf)"
    using fromHexChar_hextable [OF unat_lo_nibble [of v]] by simp
  from Cons show ?case
    by (simp add: hex_EncodeToString_def hi lo nibbles_join)
qed

lemma hexutil_Decode_Encode: "hexutil_Decode (hexutil_Encode bs) = Inr bs"
  by (simp add: hexutil_Decode_def hexutil_Encode_def has0xPrefix_def hex_DecodeString_Encode)

lemma length_hex_EncodeToString: "length (hex_EncodeToString bs) = 2 * length bs"
  by (induction bs) (simp_all add: hex_EncodeToString_def)

lemma set_hex_EncodeToString: "set (hex_EncodeToString bs) \<subseteq> set hextable"
proof -
  have "hextable ! k \<in> set hextable" if "k < 16" for k
    using that by (intro nth_mem) (simp add: hextable_def)
  then show ?thesis
    using unat_hi_nibble unat_lo_nibble by (auto simp: hex_EncodeToString_def)
qed

subsection \<open>The EIP-55 form decodes to the address\<close>

lemma hextable_cases:
  assumes "c \<in> set hextable"
  obtains "c = CHR ''0''" | "c = CHR ''1''" | "c = CHR ''2''" | "c = CHR ''3''"
    | "c = CHR ''4''" | "c = CHR ''5''" | "c = CHR ''6''" | "c = CHR ''7''"
    | "c = CHR ''8''" | "c = CHR ''9''" | "c = CHR ''a''" | "c = CHR ''b''"
    | "c = CHR ''c''" | "c = CHR ''d''" | "c = CHR ''e''" | "c = CHR ''f''"
  using assms unfolding hextable_def by atomize_elim simp

lemma fromHexChar_upper_if:
  assumes "c \<in> set hextable"
  shows "fromHexChar (upper_if u c) = fromHexChar c"
  using assms by (rule hextable_cases) (simp_all add: upper_if_def fromHexChar_def)

lemma fromHexChar_hextable_Some:
  assumes "c \<in> set hextable"
  shows "fromHexChar c \<noteq> None"
  using assms by (rule hextable_cases) (simp_all add: fromHexChar_def)

lemma to_lower_upper_if:
  assumes "c \<in> set hextable"
  shows "to_lower (upper_if u c) = c"
  using assms by (rule hextable_cases) (simp_all add: upper_if_def to_lower_def char_of_eq_iff)

lemma hex_DecodeString_cong:
  assumes "list_all2 (\<lambda>x y. fromHexChar y = fromHexChar x \<and> fromHexChar x \<noteq> None) xs ys"
  shows "hex_DecodeString ys = hex_DecodeString xs"
  using assms
proof (induction xs arbitrary: ys rule: hex_DecodeString.induct)
  case 1
  then show ?case by simp
next
  case (2 p)
  then show ?case by (auto simp: list_all2_Cons1)
next
  case (3 p q rest)
  from "3.prems" obtain p' q' rest' where ys: "ys = p' # q' # rest'"
    and p: "fromHexChar p' = fromHexChar p" "fromHexChar p \<noteq> None"
    and q: "fromHexChar q' = fromHexChar q" "fromHexChar q \<noteq> None"
    and rest: "list_all2 (\<lambda>x y. fromHexChar y = fromHexChar x \<and> fromHexChar x \<noteq> None) rest rest'"
    by (auto simp: list_all2_Cons1)
  from p q obtain a b where ab: "fromHexChar p = Some a" "fromHexChar q = Some b"
    by auto
  have "hex_DecodeString rest' = hex_DecodeString rest"
    using "3.IH" [OF ab rest] .
  then show ?case using ab p q by (simp add: ys)
qed

lemma checksumHex_nth:
  assumes "i < 40"
  shows "checksumHex a ! i =
         upper_if (7 < (if even i then drop_bit 4 (Keccak256 (bytes_of_string (hex_EncodeToString (Address_Bytes a))) ! (i div 2))
                        else Keccak256 (bytes_of_string (hex_EncodeToString (Address_Bytes a))) ! (i div 2) AND 0xf))
                  (hex_EncodeToString (Address_Bytes a) ! i)"
proof -
  have "length (Address_Bytes a) = 20" by transfer simp
  then have "length (hex_EncodeToString (Address_Bytes a)) = 40"
    by (simp add: length_hex_EncodeToString)
  with assms show ?thesis
    by (cases "even i") (simp_all add: checksumHex_def Let_def upper_if_def)
qed

lemma length_Address_Bytes: "length (Address_Bytes a) = 20"
  by transfer simp

lemma length_checksumHex: "length (checksumHex a) = 40"
  by (simp add: checksumHex_def Let_def length_hex_EncodeToString length_Address_Bytes)

lemma hex_nth_in_hextable:
  assumes "i < 40"
  shows "hex_EncodeToString (Address_Bytes a) ! i \<in> set hextable"
proof -
  have "hex_EncodeToString (Address_Bytes a) ! i \<in> set (hex_EncodeToString (Address_Bytes a))"
    using assms by (intro nth_mem) (simp add: length_hex_EncodeToString length_Address_Bytes)
  then show ?thesis using set_hex_EncodeToString by blast
qed

lemma hex_DecodeString_checksumHex:
  "hex_DecodeString (checksumHex a) = (Address_Bytes a, None)"
proof -
  have "list_all2 (\<lambda>x y. fromHexChar y = fromHexChar x \<and> fromHexChar x \<noteq> None)
          (hex_EncodeToString (Address_Bytes a)) (checksumHex a)"
    unfolding list_all2_conv_all_nth
    by (simp add: length_checksumHex length_hex_EncodeToString length_Address_Bytes
          checksumHex_nth hex_nth_in_hextable fromHexChar_upper_if fromHexChar_hextable_Some)
  then have "hex_DecodeString (checksumHex a) = hex_DecodeString (hex_EncodeToString (Address_Bytes a))"
    by (rule hex_DecodeString_cong)
  then show ?thesis by (simp add: hex_DecodeString_Encode)
qed

lemma BytesToAddress_Address_Bytes: "BytesToAddress (Address_Bytes a) = a"
  by transfer (simp add: Let_def)

lemma HexToAddress_Hex: "HexToAddress (Address_Hex a) = a"
proof -
  have even: "even (length (checksumHex a))" by (simp add: length_checksumHex)
  have "FromHex (Address_Hex a) = Address_Bytes a"
    by (simp add: FromHex_def Address_Hex_def has0xPrefix_def even hex_DecodeString_checksumHex)
  then show ?thesis by (simp add: HexToAddress_def BytesToAddress_Address_Bytes)
qed

lemma map_to_lower_checksumHex:
  "map to_lower (checksumHex a) = hex_EncodeToString (Address_Bytes a)"
  by (rule nth_equalityI)
     (simp_all add: length_checksumHex length_hex_EncodeToString length_Address_Bytes
        checksumHex_nth hex_nth_in_hextable to_lower_upper_if)

lemma checksumHex_hex_digits: "list_all is_hex_digit (checksumHex a)"
  unfolding list_all_length is_hex_digit_def
  by (simp add: length_checksumHex checksumHex_nth hex_nth_in_hextable
        fromHexChar_upper_if fromHexChar_hextable_Some)

lemma length_nibbles_of: "length (nibbles_of hash) = 2 * length hash"
  by (induction hash) (simp_all add: nibbles_of_def)

lemma nibbles_of_nth:
  assumes "i < 2 * length hash"
  shows "nibbles_of hash ! i =
           (if even i then unat (hash ! (i div 2)) div 16 else unat (hash ! (i div 2)) mod 16)"
  using assms
proof (induction hash arbitrary: i)
  case Nil
  then show ?case by simp
next
  case (Cons b hash)
  show ?case
  proof (cases i)
    case 0
    then show ?thesis by (simp add: nibbles_of_def)
  next
    case (Suc j)
    show ?thesis
    proof (cases j)
      case 0
      with Suc show ?thesis by (simp add: nibbles_of_def)
    next
      case (Suc k)
      with \<open>i = Suc j\<close> Cons.prems have k: "k < 2 * length hash" by simp
      have "nibbles_of (b # hash) ! i = nibbles_of hash ! k"
        using \<open>i = Suc j\<close> Suc by (simp add: nibbles_of_def)
      with Cons.IH [OF k] \<open>i = Suc j\<close> Suc show ?thesis by simp
    qed
  qed
qed

lemma hi_nibble_gt7: "7 < drop_bit 4 (h :: byte) \<longleftrightarrow> 8 \<le> unat h div 16"
proof -
  have "unat (drop_bit 4 h) = drop_bit 4 (unat h)" by (rule unat_drop_bit_eq)
  also have "\<dots> = unat h div 2 ^ 4" by (rule drop_bit_eq_div)
  finally have u: "unat (drop_bit 4 h) = unat h div 16" by simp
  have "7 < drop_bit 4 h \<longleftrightarrow> unat (7 :: byte) < unat (drop_bit 4 h)"
    by (rule word_less_nat_alt)
  then show ?thesis by (simp add: u) arith
qed

lemma lo_nibble_gt7: "7 < (h :: byte) AND 0xf \<longleftrightarrow> 8 \<le> unat h mod 16"
proof -
  have "unat (h AND 0xf) = unat (take_bit 4 h)" by (simp only: lo_nibble_mask)
  also have "\<dots> = take_bit 4 (unat h)" by (rule unsigned_take_bit_eq)
  also have "\<dots> = unat h mod 2 ^ 4" by (rule take_bit_eq_mod)
  finally have u: "unat (h AND 0xf) = unat h mod 16" by simp
  have "7 < h AND 0xf \<longleftrightarrow> unat (7 :: byte) < unat (h AND 0xf)"
    by (rule word_less_nat_alt)
  then show ?thesis by (simp add: u) arith
qed

lemma upper_if_eip55:
  assumes "c \<in> set hextable"
  shows "upper_if u c = (if c \<in> set ''abcdef'' \<and> u then to_upper c else c)"
  using assms by (rule hextable_cases) (simp_all add: upper_if_def to_upper_def)

lemma checksumHex_eip55:
  "checksumHex a = eip55_checksum (hex_EncodeToString (Address_Bytes a))"
proof (rule nth_equalityI)
  show len: "length (checksumHex a) = length (eip55_checksum (hex_EncodeToString (Address_Bytes a)))"
    by (simp add: length_checksumHex eip55_checksum_def length_nibbles_of
          length_hex_EncodeToString length_Address_Bytes length_Keccak256)
  fix i assume "i < length (checksumHex a)"
  then have i: "i < 40" by (simp add: length_checksumHex)
  then have i64: "i < 2 * length (Keccak256 (bytes_of_string (hex_EncodeToString (Address_Bytes a))))"
    by (simp add: length_Keccak256)
  have il: "i < length (hex_EncodeToString (Address_Bytes a))"
    using i by (simp add: length_hex_EncodeToString length_Address_Bytes)
  have inb: "i < length (nibbles_of (Keccak256 (bytes_of_string (hex_EncodeToString (Address_Bytes a)))))"
    using i by (simp add: length_nibbles_of length_Keccak256)
  show "checksumHex a ! i = eip55_checksum (hex_EncodeToString (Address_Bytes a)) ! i"
    using il inb
    by (cases "even i")
       (simp_all add: checksumHex_nth [OF i] eip55_checksum_def nibbles_of_nth [OF i64]
          upper_if_eip55 [OF hex_nth_in_hextable [OF i]] hi_nibble_gt7 lo_nibble_gt7)
qed

subsection \<open>Big-endian bytes, character replacement\<close>

lemma be_bytes_digits:
  assumes "0 \<le> v"
  shows "be_bytes n v = map (\<lambda>i. of_nat (nat v div 256 ^ (n - 1 - i))) [0..<n]"
  using assms
proof (induction n arbitrary: v)
  case 0
  then show ?case by simp
next
  case (Suc n)
  have v256: "0 \<le> v div 256" using Suc.prems by simp
  have step: "nat (v div 256) div 256 ^ (n - 1 - i) = nat v div 256 ^ (n - i)" if "i < n" for i
  proof -
    have "nat (v div 256) = nat v div 256" using Suc.prems by (simp add: nat_div_distrib)
    moreover have "(256::nat) * 256 ^ (n - 1 - i) = 256 ^ (n - i)"
      using that by (metis Suc_diff_Suc diff_Suc_eq_diff_pred power_Suc)
    ultimately show ?thesis by (metis div_mult2_eq)
  qed
  have last: "(word_of_int (v mod 256) :: byte) = of_nat (nat v)"
  proof -
    have "(word_of_int (v mod 256) :: byte) = word_of_int v"
      by (simp add: word_of_int_eq_iff take_bit_eq_mod)
    then show ?thesis using Suc.prems by simp
  qed
  have "be_bytes (Suc n) v = be_bytes n (v div 256) @ [word_of_int (v mod 256)]" by simp
  also have "be_bytes n (v div 256) = map (\<lambda>i. of_nat (nat (v div 256) div 256 ^ (n - 1 - i))) [0..<n]"
    using Suc.IH [OF v256] .
  also have "\<dots> = map (\<lambda>i. of_nat (nat v div 256 ^ (n - i))) [0..<n]"
    using step by simp
  finally show ?case by (simp add: last)
qed

lemma FillBytes_32:
  assumes "\<bar>x\<bar> < 256 ^ 32"
  shows "FillBytes x 32 = Inr (be32 (nat \<bar>x\<bar>))"
proof -
  have "be_bytes 32 \<bar>x\<bar> = be32 (nat \<bar>x\<bar>)"
    unfolding be32_def by (subst be_bytes_digits) simp_all
  with assms show ?thesis by (simp add: FillBytes_def)
qed

lemma abs_sint64_small: "\<bar>sint (c :: 64 word)\<bar> < 256 ^ 32"
proof -
  have "sint c < 2 ^ 63" "- (2 ^ 63) \<le> sint c"
    using sint_lt [of c] sint_ge [of c] by simp_all
  then show ?thesis by simp
qed

lemma uint64_small: "\<bar>uint (n :: 64 word)\<bar> < 256 ^ 32"
proof -
  have "uint n < 2 ^ 64" using uint_lt2p [of n] by simp
  moreover have "0 \<le> uint n" by simp
  ultimately show ?thesis by simp
qed

lemma ReplaceAll_char:
  "ReplaceAll s [a] [b] = map (\<lambda>c. if c = a then b else c) s"
proof (induction s)
  case Nil
  then show ?case by (simp add: ReplaceAll.simps)
next
  case (Cons c s)
  then show ?case by (subst ReplaceAll.simps) simp
qed

lemma ReplaceAll_translate:
  "ReplaceAll (ReplaceAll s ''+'' ''-'') ''/'' ''_'' = map translate s"
  by (simp add: ReplaceAll_char translate_def)

section \<open>The canonical digest\<close>

lemma FillBytes_sint: "FillBytes (sint (c :: 64 word)) 32 = Inr (be32 (nat \<bar>sint c\<bar>))"
  by (rule FillBytes_32 [OF abs_sint64_small])

lemma FillBytes_uint: "FillBytes (uint (n :: 64 word)) 32 = Inr (be32 (unat n))"
  using FillBytes_32 [OF uint64_small, of n] by simp

lemma getDomainSeparator_spec:
  "getDomainSeparator d =
     Inr (spec_domainSeparator (Name d) (Version d) (nat \<bar>sint (ChainID d)\<bar>))"
  by (simp add: getDomainSeparator_def Let_def FillBytes_sint
        spec_domainSeparator_def enc_string_def)

lemma encodeClobAuthData_spec:
  "encodeClobAuthData \<lparr> Address = Address_Hex a, Timestamp = t, Nonce = n, Message = m \<rparr> =
     Inr (enc_address a @ enc_string t @ be32 (unat n) @ enc_string m)"
  by (simp add: encodeClobAuthData_def Let_def FillBytes_uint HexToAddress_Hex
        enc_address_def enc_string_def)

lemma ClobAuthHash_spec:
  "ClobAuthHash lib k chainID ts nonce =
     Inr (spec_digest
            (spec_domainSeparator ''ClobAuthDomain'' ''1'' (nat \<bar>sint chainID\<bar>))
            (spec_structHash (PubkeyToAddress lib (PublicKey lib k)) (Sprintf_d ts)
               (unat nonce) MSG_TO_SIGN))"
  by (simp add: ClobAuthHash_def Let_def getDomainSeparator_spec getTypeHash_def
        encodeClobAuthData_spec spec_digest_def spec_structHash_def enc_string_def)

lemma abs_sint_minus: "\<bar>sint (- c :: 64 word)\<bar> = \<bar>sint c\<bar>"
proof (cases "c = 2 ^ 63")
  case True
  then have "- c = c" by simp
  then show ?thesis by (simp only:)
next
  case False
  have lo: "- (2 ^ 63) \<le> sint c" and hi: "sint c < 2 ^ 63"
    using sint_ge [of c] sint_lt [of c] by simp_all
  have "sint c \<noteq> - (2 ^ 63)"
  proof
    assume "sint c = - (2 ^ 63)"
    then have "word_of_int (sint c) = (word_of_int (- (2 ^ 63)) :: 64 word)" by simp
    then have "c = - (2 ^ 63)" by simp
    then have "c = 2 ^ 63" by simp
    with False show False by simp
  qed
  with lo hi have r: "- (2 ^ 63) \<le> - sint c" "- sint c < 2 ^ 63" by simp_all
  have "sint (- c) = signed_take_bit 63 (- sint c)"
    by (simp add: sint_word_ariths)
  also have "\<dots> = - sint c"
    using r by (simp add: signed_take_bit_int_eq_self)
  finally show ?thesis by simp
qed

section \<open>The claims\<close>

text \<open>
  C5. The digest that \<^verbatim>\<open>BuildClobEip712Signature\<close> signs is
  \<open>keccak256(0x19 0x01 || domainSeparator || structHash)\<close>. The domain separator is the
  hash of the \<^verbatim>\<open>EIP712Domain\<close> type hash, the hashes of name and version and the 32-byte
  big-endian chain id (as \<^verbatim>\<open>FillBytes\<close> stores it: the magnitude of the signed value), and
  of nothing else: salt and verifying contract do not take part. The struct hash is the
  hash of the \<^verbatim>\<open>ClobAuth\<close> type hash, the address padded with 12 zero bytes, the hash of
  the timestamp string, the 32-byte big-endian nonce and the hash of the attestation
  message, in this order.
\<close>

theorem clob_digest_layout:
  "ClobAuthHash lib k chainID ts nonce =
     Inr (Keccak256 ([0x19, 0x01]
            @ spec_domainSeparator ''ClobAuthDomain'' ''1'' (nat \<bar>sint chainID\<bar>)
            @ spec_structHash (PubkeyToAddress lib (PublicKey lib k)) (Sprintf_d ts)
                (unat nonce) ''This message attests that I control the given wallet''))
   \<and> BuildClobEip712Signature lib k chainID ts nonce =
       (case Sign lib
               (Keccak256 ([0x19, 0x01]
                  @ spec_domainSeparator ''ClobAuthDomain'' ''1'' (nat \<bar>sint chainID\<bar>)
                  @ spec_structHash (PubkeyToAddress lib (PublicKey lib k)) (Sprintf_d ts)
                      (unat nonce) ''This message attests that I control the given wallet''))
               k of
          Inl e \<Rightarrow> Inl (Wrapped ''failed to sign hash'' (Lib e))
        | Inr signature \<Rightarrow>
            if length signature \<le> 64 then Inl (Panic ''index out of range [64]'')
            else Inr (hexutil_Encode
                   (if signature ! 64 < 27 then signature[64 := signature ! 64 + 27]
                    else signature)))
   \<and> getDomainSeparator d =
       Inr (Keccak256 (Keccak256 (bytes_of_string
                         ''EIP712Domain(string name,string version,uint256 chainId)'')
                       @ Keccak256 (bytes_of_string (Name d))
                       @ Keccak256 (bytes_of_string (Version d))
                       @ be32 (nat \<bar>sint (ChainID d)\<bar>)))
   \<and> getDomainSeparator (d\<lparr>Salt := salt, VerifyingContract := vc\<rparr>) = getDomainSeparator d
   \<and> spec_structHash a t n m =
       Keccak256 (Keccak256 (bytes_of_string
                    ''ClobAuth(address address,string timestamp,uint256 nonce,string message)'')
                  @ (replicate 12 0 @ Address_Bytes a)
                  @ Keccak256 (bytes_of_string t)
                  @ be32 n
                  @ Keccak256 (bytes_of_string m))"
proof -
  have digest: "ClobAuthHash lib k chainID ts nonce =
     Inr (Keccak256 ([0x19, 0x01]
            @ spec_domainSeparator ''ClobAuthDomain'' ''1'' (nat \<bar>sint chainID\<bar>)
            @ spec_structHash (PubkeyToAddress lib (PublicKey lib k)) (Sprintf_d ts)
                (unat nonce) ''This message attests that I control the given wallet''))"
    by (simp only: ClobAuthHash_spec spec_digest_def MSG_TO_SIGN_def)
  have build: "BuildClobEip712Signature lib k chainID ts nonce =
       (case Sign lib
               (Keccak256 ([0x19, 0x01]
                  @ spec_domainSeparator ''ClobAuthDomain'' ''1'' (nat \<bar>sint chainID\<bar>)
                  @ spec_structHash (PubkeyToAddress lib (PublicKey lib k)) (Sprintf_d ts)
                      (unat nonce) ''This message attests that I control the given wallet''))
               k of
          Inl e \<Rightarrow> Inl (Wrapped ''failed to sign hash'' (Lib e))
        | Inr signature \<Rightarrow>
            if length signature \<le> 64 then Inl (Panic ''index out of range [64]'')
            else Inr (hexutil_Encode
                   (if signature ! 64 < 27 then signature[64 := signature ! 64 + 27]
                    else signature)))"
    unfolding BuildClobEip712Signature_def digest
    by (simp add: Let_def split: sum.split)
  have dom: "getDomainSeparator d =
       Inr (Keccak256 (Keccak256 (bytes_of_string
                         ''EIP712Domain(string name,string version,uint256 chainId)'')
                       @ Keccak256 (bytes_of_string (Name d))
                       @ Keccak256 (bytes_of_string (Version d))
                       @ be32 (nat \<bar>sint (ChainID d)\<bar>)))" for d
    by (simp only: getDomainSeparator_spec spec_domainSeparator_def enc_string_def)
  have indep: "getDomainSeparator (d\<lparr>Salt := salt, VerifyingContract := vc\<rparr>)
                 = getDomainSeparator d"
    by (simp add: getDomainSeparator_spec)
  have struct: "spec_structHash a t n m =
       Keccak256 (Keccak256 (bytes_of_string
                    ''ClobAuth(address address,string timestamp,uint256 nonce,string message)'')
                  @ (replicate 12 0 @ Address_Bytes a)
                  @ Keccak256 (bytes_of_string t)
                  @ be32 n
                  @ Keccak256 (bytes_of_string m))"
    by (simp only: spec_structHash_def enc_string_def enc_address_def)
  from digest build dom indep struct show ?thesis by (intro conjI)
qed

text \<open>
  C10. \<^verbatim>\<open>getDomainSeparator\<close> encodes the chain id as the 32-byte big-endian magnitude of
  the signed 64-bit value: it returns no error for any chain id, negative ones included,
  and the chain ids \<open>c\<close> and \<open>- c\<close> give the same separator.
\<close>

theorem domain_separator_chainId_magnitude:
  "getDomainSeparator (d\<lparr>ChainID := c\<rparr>) =
     Inr (spec_domainSeparator (Name d) (Version d) (nat \<bar>sint c\<bar>))
   \<and> getDomainSeparator (d\<lparr>ChainID := - c\<rparr>) = getDomainSeparator (d\<lparr>ChainID := c\<rparr>)
   \<and> FillBytes (sint c) 32 = Inr (be32 (nat \<bar>sint c\<bar>))"
  by (simp add: getDomainSeparator_spec abs_sint_minus FillBytes_sint)

text \<open>
  C9. An absent body and a present, empty body give the same canonical message and the
  same authentication tag.
\<close>

theorem hmac_nil_body_is_empty_body:
  "BuildPolyHmacSignature std secret ts method path None =
     BuildPolyHmacSignature std secret ts method path (Some [])
   \<and> BuildMessage ts method path None = BuildMessage ts method path (Some [])"
  by (simp add: BuildPolyHmacSignature_def BuildMessage_def)

text \<open>
  C6. \<^verbatim>\<open>BuildPolyHmacSignature\<close> returns a string, never an error: the standard base64
  encoding, padding kept, of the HMAC-SHA256 of the message
  \<open>decimal(timestamp) || method || path || body\<close> (nothing for an absent body) under the
  key that is the URL-safe base64 decoding of the secret when that succeeds and the raw
  bytes of the secret otherwise, with \<open>+\<close> turned into \<open>-\<close> and \<open>/\<close> into \<open>_\<close>. The
  padding characters stay where the standard encoding put them.
\<close>

theorem hmac_signature_layout:
  "BuildPolyHmacSignature std secret ts method path body =
     map translate
       (StdEncoding_EncodeToString
          (HMAC_SHA256 std
             (case URLEncoding_DecodeString std secret of
                Inr decoded \<Rightarrow> decoded
              | Inl err \<Rightarrow> bytes_of_string secret)
             (bytes_of_string
                (Sprintf_d ts @ method @ path @ (case body of None \<Rightarrow> [] | Some b \<Rightarrow> b)))))
   \<and> BuildPolyHmacSignature std secret ts method path body =
       spec_hmac_sign std secret ts method path body
   \<and> CHR ''+'' \<notin> set (BuildPolyHmacSignature std secret ts method path body)
   \<and> CHR ''/'' \<notin> set (BuildPolyHmacSignature std secret ts method path body)
   \<and> map (\<lambda>c. c = CHR ''='') (BuildPolyHmacSignature std secret ts method path body) =
       map (\<lambda>c. c = CHR ''='')
         (StdEncoding_EncodeToString
            (HMAC_SHA256 std (spec_hmac_key std secret)
               (bytes_of_string (canonicalMessage ts method path body))))"
proof -
  have eq: "BuildPolyHmacSignature std secret ts method path body =
              spec_hmac_sign std secret ts method path body"
    by (cases body; cases "URLEncoding_DecodeString std secret")
       (simp_all add: BuildPolyHmacSignature_def spec_hmac_sign_def spec_hmac_key_def
          canonicalMessage_def ReplaceAll_translate Let_def)
  have unfold: "spec_hmac_sign std secret ts method path body =
     map translate
       (StdEncoding_EncodeToString
          (HMAC_SHA256 std
             (case URLEncoding_DecodeString std secret of
                Inr decoded \<Rightarrow> decoded
              | Inl err \<Rightarrow> bytes_of_string secret)
             (bytes_of_string
                (Sprintf_d ts @ method @ path @ (case body of None \<Rightarrow> [] | Some b \<Rightarrow> b)))))"
    by (simp only: spec_hmac_sign_def spec_hmac_key_def canonicalMessage_def)
  define enc where "enc = StdEncoding_EncodeToString
            (HMAC_SHA256 std (spec_hmac_key std secret)
               (bytes_of_string (canonicalMessage ts method path body)))"
  have build: "BuildPolyHmacSignature std secret ts method path body = map translate enc"
    unfolding eq enc_def by (simp only: spec_hmac_sign_def)
  have c1: "BuildPolyHmacSignature std secret ts method path body =
     map translate
       (StdEncoding_EncodeToString
          (HMAC_SHA256 std
             (case URLEncoding_DecodeString std secret of
                Inr decoded \<Rightarrow> decoded
              | Inl err \<Rightarrow> bytes_of_string secret)
             (bytes_of_string
                (Sprintf_d ts @ method @ path @ (case body of None \<Rightarrow> [] | Some b \<Rightarrow> b)))))"
    using eq unfold by (rule trans)
  have c3: "CHR ''+'' \<notin> set (BuildPolyHmacSignature std secret ts method path body)"
    unfolding build by (auto simp: translate_def)
  have c4: "CHR ''/'' \<notin> set (BuildPolyHmacSignature std secret ts method path body)"
    unfolding build by (auto simp: translate_def)
  have c5: "map (\<lambda>c. c = CHR ''='') (BuildPolyHmacSignature std secret ts method path body) =
       map (\<lambda>c. c = CHR ''='')
         (StdEncoding_EncodeToString
            (HMAC_SHA256 std (spec_hmac_key std secret)
               (bytes_of_string (canonicalMessage ts method path body))))"
    unfolding build enc_def by (simp add: translate_def)
  from c1 eq c3 c4 c5 show ?thesis by (intro conjI)
qed

text \<open>
  C8. A signature string that decodes to a byte string of a length other than 65 makes
  both recovery functions return the error ``signature must be 65 bytes long'': no panic,
  and no address.
\<close>

theorem recover_rejects_wrong_length:
  assumes "hexutil_Decode signature = Inr sig" and "length sig \<noteq> 65"
  shows "RecoverAddress lib hash signature = Inl (Errorf ''signature must be 65 bytes long'')
       \<and> RecoverAddressFromMessage lib message signature =
           Inl (Errorf ''signature must be 65 bytes long'')"
  using assms by (simp add: RecoverAddress_def RecoverAddressFromMessage_def)

lemma hexutil_Decode_64_bytes:
  "hexutil_Decode (''0x'' @ replicate 128 (CHR ''0'')) = Inr (replicate 64 0)"
proof -
  have "''0x'' @ replicate 128 (CHR ''0'') = hexutil_Encode (replicate 64 0)"
    by code_simp
  then show ?thesis by (simp only: hexutil_Decode_Encode)
qed

theorem recover_rejects_wrong_length_witness:
  "hexutil_Decode (''0x'' @ replicate 128 (CHR ''0'')) = Inr (replicate 64 0)
   \<and> length (replicate 64 (0 :: byte)) \<noteq> 65
   \<and> RecoverAddress toy_crypto (replicate 32 0) (''0x'' @ replicate 128 (CHR ''0'')) =
       Inl (Errorf ''signature must be 65 bytes long'')
   \<and> RecoverAddressFromMessage toy_crypto [] (''0x'' @ replicate 128 (CHR ''0'')) =
       Inl (Errorf ''signature must be 65 bytes long'')"
proof -
  have len: "length (replicate 64 (0 :: byte)) \<noteq> 65" by simp
  from recover_rejects_wrong_length [OF hexutil_Decode_64_bytes len, of toy_crypto "replicate 32 0" "[]"]
  show ?thesis using hexutil_Decode_64_bytes len by simp
qed

lemma eip55_test_vector:
  "Address_Hex (BytesToAddress vector_address_bytes) =
     ''0x5aAeb6053F3E94C9b9A09f33669435E7Ef1BeAed''"
  by code_simp

lemma vector_lowercase_hex:
  "''0x'' @ hex_EncodeToString (Address_Bytes (BytesToAddress vector_address_bytes)) =
     ''0x5aaeb6053f3e94c9b9a09f33669435e7ef1beaed''"
  by code_simp

lemma eip55_checksum_vector:
  "eip55_checksum ''5aaeb6053f3e94c9b9a09f33669435e7ef1beaed'' =
     ''5aAeb6053F3E94C9b9A09f33669435E7Ef1BeAed''"
proof -
  have l: "hex_EncodeToString (Address_Bytes (BytesToAddress vector_address_bytes)) =
             ''5aaeb6053f3e94c9b9a09f33669435e7ef1beaed''"
    using vector_lowercase_hex by simp
  have "checksumHex (BytesToAddress vector_address_bytes) =
          ''5aAeb6053F3E94C9b9A09f33669435E7Ef1BeAed''"
    using eip55_test_vector by (simp add: Address_Hex_def)
  then show ?thesis by (simp only: checksumHex_eip55 l)
qed

text \<open>
  C7, as stated, fails: \<^verbatim>\<open>GetAddressHex\<close> is \<^verbatim>\<open>Address.Hex\<close>, the EIP-55 form, which puts
  letters in upper case. For the wallet of the EIP-55 test vector it returns
  \<open>0x5aAeb6053F3E94C9b9A09f33669435E7Ef1BeAed\<close>, which is not the lowercase encoding of
  the address and has characters that are no lowercase hex digits.
\<close>

theorem address_hex_lowercase_counterexample:
  "GetAddressHex vector_wallet = ''0x5aAeb6053F3E94C9b9A09f33669435E7Ef1BeAed''
   \<and> GetAddressHex vector_wallet \<noteq>
       ''0x'' @ hex_EncodeToString (Address_Bytes (GetAddress vector_wallet))
   \<and> \<not> list_all is_lower_hex (drop 2 (GetAddressHex vector_wallet))"
proof -
  have v: "GetAddressHex vector_wallet = ''0x5aAeb6053F3E94C9b9A09f33669435E7Ef1BeAed''"
    by (simp add: GetAddressHex_def vector_wallet_def eip55_test_vector)
  have l: "''0x'' @ hex_EncodeToString (Address_Bytes (GetAddress vector_wallet)) =
             ''0x5aaeb6053f3e94c9b9a09f33669435e7ef1beaed''"
    using vector_lowercase_hex by (simp add: GetAddress_def vector_wallet_def)
  have n: "\<not> list_all is_lower_hex (drop 2 (GetAddressHex vector_wallet))"
    unfolding v by (simp add: is_lower_hex_def hextable_def)
  from v l n show ?thesis by simp
qed

text \<open>
  C7, amended. For every wallet, \<^verbatim>\<open>GetAddressHex\<close> returns \<open>0x\<close> followed by exactly 40
  hex characters, the EIP-55 mixed-case form of the 20-byte address: they are the 40
  lowercase hex digits of the address with digit \<open>i\<close> in upper case exactly when it is a
  letter and nibble \<open>i\<close> of the Keccak-256 hash of those 40 digits is 8 or more. Put in
  lower case they are the lowercase hex encoding of the address, and \<^verbatim>\<open>HexToAddress\<close>
  reads the address back from them.
\<close>

theorem address_hex_is_checksummed_hex:
  "length (GetAddressHex w) = 42
   \<and> take 2 (GetAddressHex w) = ''0x''
   \<and> list_all is_hex_digit (drop 2 (GetAddressHex w))
   \<and> map to_lower (drop 2 (GetAddressHex w)) = hex_EncodeToString (Address_Bytes (GetAddress w))
   \<and> length (Address_Bytes (GetAddress w)) = 20
   \<and> HexToAddress (GetAddressHex w) = GetAddress w
   \<and> GetAddressHex w =
       ''0x'' @ eip55_checksum (hex_EncodeToString (Address_Bytes (GetAddress w)))"
proof -
  have rt: "HexToAddress (GetAddressHex w) = GetAddress w"
    by (simp only: GetAddressHex_def GetAddress_def HexToAddress_Hex)
  have form: "GetAddressHex w =
       ''0x'' @ eip55_checksum (hex_EncodeToString (Address_Bytes (GetAddress w)))"
    by (simp only: GetAddressHex_def GetAddress_def Address_Hex_def checksumHex_eip55)
  have rest: "length (GetAddressHex w) = 42 \<and> take 2 (GetAddressHex w) = ''0x''
      \<and> list_all is_hex_digit (drop 2 (GetAddressHex w))
      \<and> map to_lower (drop 2 (GetAddressHex w)) = hex_EncodeToString (Address_Bytes (GetAddress w))
      \<and> length (Address_Bytes (GetAddress w)) = 20"
    by (simp add: GetAddressHex_def GetAddress_def Address_Hex_def length_checksumHex
          map_to_lower_checksumHex length_Address_Bytes checksumHex_hex_digits)
  from rest rt form show ?thesis by (intro conjI) simp_all
qed

text \<open>
  C1 fails on the code. The message hash of the generic path is the Keccak-256 hash of
  the JSON serialization of the message, whatever \<^verbatim>\<open>json.Marshal\<close> returns: the type
  schemas and the primary type do not enter it, so there is no type hash in it and no
  field encoding. \<^verbatim>\<open>SignTypedData\<close> signs the digest built from that hash.
\<close>

theorem message_hash_is_json_hash:
  "getMessageHash json_Marshal typedData =
     (case json_Marshal (MessageTD typedData) of
        Inl e \<Rightarrow> Inl (Wrapped ''failed to marshal message'' (Json e))
      | Inr messageBytes \<Rightarrow> Inr (Keccak256 messageBytes))
   \<and> getMessageHash json_Marshal (typedData\<lparr>Types := types, PrimaryType := primaryType\<rparr>) =
       getMessageHash json_Marshal typedData
   \<and> getTypedDataHash json_Marshal (typedData\<lparr>Types := types, PrimaryType := primaryType\<rparr>) =
       getTypedDataHash json_Marshal typedData
   \<and> SignTypedData lib json_Marshal k (typedData\<lparr>Types := types, PrimaryType := primaryType\<rparr>) =
       SignTypedData lib json_Marshal k typedData"
proof -
  have m: "getMessageHash json_Marshal (typedData\<lparr>Types := types, PrimaryType := primaryType\<rparr>) =
             getMessageHash json_Marshal typedData"
    by (simp add: getMessageHash_def)
  have h: "getTypedDataHash json_Marshal (typedData\<lparr>Types := types, PrimaryType := primaryType\<rparr>) =
             getTypedDataHash json_Marshal typedData"
    unfolding getTypedDataHash_def m by simp
  have s: "SignTypedData lib json_Marshal k (typedData\<lparr>Types := types, PrimaryType := primaryType\<rparr>) =
             SignTypedData lib json_Marshal k typedData"
    unfolding SignTypedData_def h by simp
  have d: "getMessageHash json_Marshal typedData =
     (case json_Marshal (MessageTD typedData) of
        Inl e \<Rightarrow> Inl (Wrapped ''failed to marshal message'' (Json e))
      | Inr messageBytes \<Rightarrow> Inr (Keccak256 messageBytes))"
    by (simp add: getMessageHash_def)
  from d m h s show ?thesis by (intro conjI)
qed

subsection \<open>Signing and recovery\<close>

lemma toy_Sign_V: "Sign_V_is_0_or_1 toy_crypto"
  by (auto simp: Sign_V_is_0_or_1_def toy_crypto_def nth_append)

lemma toy_SigToPub_rejects: "SigToPub_rejects_27_28 toy_crypto"
  by (auto simp: SigToPub_rejects_27_28_def toy_crypto_def)

lemma length_adjust_v: "length (adjust_v sig) = length sig"
  by (simp add: adjust_v_def)

lemma adjust_v_27_28:
  assumes "length sig = 65"
    and "sig ! 64 = 0 \<or> sig ! 64 = 1 \<or> sig ! 64 = 27 \<or> sig ! 64 = 28"
  shows "adjust_v sig ! 64 = 27 \<or> adjust_v sig ! 64 = 28"
  using assms by (auto simp: adjust_v_def)

lemma RecoverAddress_Encode:
  assumes "length sig = 65"
  shows "RecoverAddress lib h (hexutil_Encode sig) =
           (case SigToPub lib h (adjust_v sig) of
              Inl e \<Rightarrow> Inl (Wrapped ''failed to recover public key'' (Lib e))
            | Inr pubkey \<Rightarrow> Inr (PubkeyToAddress lib pubkey))"
  using assms by (simp add: RecoverAddress_def hexutil_Decode_Encode)

lemma RecoverAddressFromMessage_Encode:
  assumes "length sig = 65"
  shows "RecoverAddressFromMessage lib m (hexutil_Encode sig) =
           (case SigToPub lib (Keccak256 m) (adjust_v sig) of
              Inl e \<Rightarrow> Inl (Wrapped ''failed to recover public key'' (Lib e))
            | Inr pubkey \<Rightarrow> Inr (PubkeyToAddress lib pubkey))"
  using assms by (simp add: RecoverAddressFromMessage_def hexutil_Decode_Encode Let_def)

lemma recover_fails_27_28:
  assumes rej: "SigToPub_rejects_27_28 lib" and len: "length sig = 65"
    and v: "sig ! 64 = 0 \<or> sig ! 64 = 1 \<or> sig ! 64 = 27 \<or> sig ! 64 = 28"
  shows "\<exists>e. SigToPub lib h (adjust_v sig) = Inl e"
proof -
  have "isl (SigToPub lib h (adjust_v sig))"
    using rej adjust_v_27_28 [OF len v] len
    unfolding SigToPub_rejects_27_28_def by (simp add: length_adjust_v)
  then show ?thesis by (cases "SigToPub lib h (adjust_v sig)") simp_all
qed

lemma BuildClob_signature:
  assumes sv: "Sign_V_is_0_or_1 lib"
    and b: "BuildClobEip712Signature lib k c t n = Inr s"
  shows "\<exists>sig. s = hexutil_Encode sig \<and> length sig = 65 \<and> (sig ! 64 = 27 \<or> sig ! 64 = 28)"
proof -
  obtain digest where d: "ClobAuthHash lib k c t n = Inr digest"
    using ClobAuthHash_spec [of lib k c t n] by blast
  from b d obtain raw where raw: "Sign lib digest k = Inr raw"
    by (cases "Sign lib digest k") (simp_all add: BuildClobEip712Signature_def)
  from sv raw have len: "length raw = 65" and v: "raw ! 64 = 0 \<or> raw ! 64 = 1"
    unfolding Sign_V_is_0_or_1_def by blast+
  from b d raw len v have "s = hexutil_Encode (raw[64 := raw ! 64 + 27])"
    by (auto simp: BuildClobEip712Signature_def Let_def)
  moreover have "raw[64 := raw ! 64 + 27] ! 64 = 27 \<or> raw[64 := raw ! 64 + 27] ! 64 = 28"
    using len v by auto
  ultimately show ?thesis using len by (intro exI [of _ "raw[64 := raw ! 64 + 27]"]) simp
qed

text \<open>
  C2 fails on the code for three of the four operations. \<^verbatim>\<open>SignHash\<close>, \<^verbatim>\<open>SignMessage\<close> and
  \<^verbatim>\<open>SignTypedData\<close> hex-encode what \<^verbatim>\<open>crypto.Sign\<close> returns and leave its recovery byte as
  it is: with go-ethereum's \<^verbatim>\<open>crypto.Sign\<close> (V is 0 or 1) the signature they return ends
  in 0 or 1, never in 27 or 28. Only \<^verbatim>\<open>BuildClobEip712Signature\<close> adds 27.
\<close>

theorem sign_operations_keep_raw_v:
  assumes "Sign_V_is_0_or_1 lib"
  shows "(SignHash lib w h = Inr s \<longrightarrow>
            (\<exists>sig. hexutil_Decode s = Inr sig \<and> length sig = 65 \<and> (sig ! 64 = 0 \<or> sig ! 64 = 1)))
       \<and> (SignMessage lib w msg = Inr s \<longrightarrow>
            (\<exists>sig. hexutil_Decode s = Inr sig \<and> length sig = 65 \<and> (sig ! 64 = 0 \<or> sig ! 64 = 1)))
       \<and> (SignTypedData lib json_Marshal k td = Inr s \<longrightarrow>
            (\<exists>sig. hexutil_Decode s = Inr sig \<and> length sig = 65 \<and> (sig ! 64 = 0 \<or> sig ! 64 = 1)))
       \<and> (BuildClobEip712Signature lib k c t n = Inr s \<longrightarrow>
            (\<exists>sig. hexutil_Decode s = Inr sig \<and> length sig = 65 \<and> (sig ! 64 = 27 \<or> sig ! 64 = 28)))"
proof -
  have raw: "\<exists>sig. hexutil_Decode (hexutil_Encode sig') = Inr sig \<and> length sig = 65
                  \<and> (sig ! 64 = 0 \<or> sig ! 64 = 1)"
    if "Sign lib d key = Inr sig'" for d key sig'
    using assms that unfolding Sign_V_is_0_or_1_def
    by (intro exI [of _ sig']) (simp add: hexutil_Decode_Encode)
  have c1: "SignHash lib w h = Inr s \<longrightarrow>
            (\<exists>sig. hexutil_Decode s = Inr sig \<and> length sig = 65 \<and> (sig ! 64 = 0 \<or> sig ! 64 = 1))"
    by (cases "Sign lib h (privateKey w)") (auto simp: SignHash_def intro: raw)
  have c2: "SignMessage lib w msg = Inr s \<longrightarrow>
            (\<exists>sig. hexutil_Decode s = Inr sig \<and> length sig = 65 \<and> (sig ! 64 = 0 \<or> sig ! 64 = 1))"
    by (cases "Sign lib (Keccak256 msg) (privateKey w)") (auto simp: SignMessage_def Let_def intro: raw)
  have c3: "SignTypedData lib json_Marshal k td = Inr s \<longrightarrow>
            (\<exists>sig. hexutil_Decode s = Inr sig \<and> length sig = 65 \<and> (sig ! 64 = 0 \<or> sig ! 64 = 1))"
  proof (cases "getTypedDataHash json_Marshal td")
    case (Inl e)
    then show ?thesis by (simp add: SignTypedData_def)
  next
    case (Inr d)
    then show ?thesis
      by (cases "Sign lib d k") (auto simp: SignTypedData_def intro: raw)
  qed
  have c4: "BuildClobEip712Signature lib k c t n = Inr s \<longrightarrow>
            (\<exists>sig. hexutil_Decode s = Inr sig \<and> length sig = 65 \<and> (sig ! 64 = 27 \<or> sig ! 64 = 28))"
    using BuildClob_signature [OF assms] by (metis hexutil_Decode_Encode)
  from c1 c2 c3 c4 show ?thesis by (intro conjI)
qed

theorem sign_operations_keep_raw_v_witness:
  "Sign_V_is_0_or_1 toy_crypto
   \<and> SignHash toy_crypto vector_wallet (replicate 32 0) = Inr (hexutil_Encode (replicate 64 1 @ [0]))
   \<and> (\<exists>sig. hexutil_Decode (hexutil_Encode (replicate 64 1 @ [0])) = Inr sig
          \<and> length sig = 65 \<and> (sig ! 64 = 0 \<or> sig ! 64 = 1))"
proof -
  have s: "SignHash toy_crypto vector_wallet (replicate 32 0) =
             Inr (hexutil_Encode (replicate 64 1 @ [0]))"
    by (simp add: SignHash_def toy_crypto_def)
  from sign_operations_keep_raw_v [OF toy_Sign_V,
      of vector_wallet "replicate 32 0" "hexutil_Encode (replicate 64 1 @ [0])"] s
  show ?thesis using toy_Sign_V by blast
qed

text \<open>
  C3 fails on the code. \<^verbatim>\<open>BuildClobEip712Signature\<close> returns a signature whose recovery
  byte is 27 or 28; \<^verbatim>\<open>RecoverAddress\<close> leaves such a byte as it is and hands the signature
  to \<^verbatim>\<open>crypto.SigToPub\<close>, which rejects it. So recovery from the digest and the signature
  just produced returns the error ``failed to recover public key'', not the address of
  the key.
\<close>

theorem clob_sign_then_recover_fails:
  assumes "Sign_V_is_0_or_1 lib" and "SigToPub_rejects_27_28 lib"
    and "ClobAuthHash lib k c t n = Inr digest"
    and "BuildClobEip712Signature lib k c t n = Inr s"
  shows "(\<exists>e. RecoverAddress lib digest s =
               Inl (Wrapped ''failed to recover public key'' (Lib e)))
       \<and> RecoverAddress lib digest s \<noteq> Inr (PubkeyToAddress lib (PublicKey lib k))"
proof -
  from BuildClob_signature [OF assms(1) assms(4)] obtain sig
    where s: "s = hexutil_Encode sig" and len: "length sig = 65"
      and v: "sig ! 64 = 27 \<or> sig ! 64 = 28" by blast
  from v have v': "sig ! 64 = 0 \<or> sig ! 64 = 1 \<or> sig ! 64 = 27 \<or> sig ! 64 = 28" by blast
  from recover_fails_27_28 [OF assms(2) len v'] obtain e
    where "SigToPub lib digest (adjust_v sig) = Inl e" by blast
  then have "RecoverAddress lib digest s = Inl (Wrapped ''failed to recover public key'' (Lib e))"
    by (simp add: s RecoverAddress_Encode [OF len])
  then show ?thesis by simp
qed

theorem clob_sign_then_recover_fails_witness:
  "Sign_V_is_0_or_1 toy_crypto \<and> SigToPub_rejects_27_28 toy_crypto
   \<and> ClobAuthHash toy_crypto () 137 1700000000 0 =
       Inr (spec_digest (spec_domainSeparator ''ClobAuthDomain'' ''1'' (nat \<bar>sint (137 :: 64 word)\<bar>))
              (spec_structHash (BytesToAddress []) (Sprintf_d 1700000000) (unat (0 :: 64 word))
                 MSG_TO_SIGN))
   \<and> BuildClobEip712Signature toy_crypto () 137 1700000000 0 =
       Inr (hexutil_Encode (replicate 64 1 @ [27]))
   \<and> RecoverAddress toy_crypto
        (spec_digest (spec_domainSeparator ''ClobAuthDomain'' ''1'' (nat \<bar>sint (137 :: 64 word)\<bar>))
              (spec_structHash (BytesToAddress []) (Sprintf_d 1700000000) (unat (0 :: 64 word))
                 MSG_TO_SIGN))
        (hexutil_Encode (replicate 64 1 @ [27])) \<noteq> Inr (BytesToAddress [])"
proof -
  have d: "ClobAuthHash toy_crypto () 137 1700000000 0 =
       Inr (spec_digest (spec_domainSeparator ''ClobAuthDomain'' ''1'' (nat \<bar>sint (137 :: 64 word)\<bar>))
              (spec_structHash (BytesToAddress []) (Sprintf_d 1700000000) (unat (0 :: 64 word))
                 MSG_TO_SIGN))"
    unfolding ClobAuthHash_spec by (simp add: toy_crypto_def)
  have b: "BuildClobEip712Signature toy_crypto () 137 1700000000 0 =
       Inr (hexutil_Encode (replicate 64 1 @ [27]))"
    unfolding BuildClobEip712Signature_def d
    by (simp add: toy_crypto_def nth_append list_update_append)
  from clob_sign_then_recover_fails [OF toy_Sign_V toy_SigToPub_rejects d b]
  show ?thesis using toy_Sign_V toy_SigToPub_rejects d b by (simp add: toy_crypto_def)
qed

lemma adjust_v_forms_agree:
  assumes "length sig = 65"
  shows "adjust_v (sig[64 := 0]) = adjust_v (sig[64 := 27])"
    and "adjust_v (sig[64 := 1]) = adjust_v (sig[64 := 28])"
  using assms by (simp_all add: adjust_v_def)

text \<open>
  C4 fails on the code. For a recovery byte in \<open>{0, 1, 27, 28}\<close> the adjustment in
  \<^verbatim>\<open>RecoverAddress\<close> and \<^verbatim>\<open>RecoverAddressFromMessage\<close> yields 27 or 28, not 0 or 1, and
  \<^verbatim>\<open>crypto.SigToPub\<close> rejects that byte: both functions return the error ``failed to
  recover public key'' instead of accepting the signature.
\<close>

theorem recover_normalises_to_27_28:
  assumes "SigToPub_rejects_27_28 lib" and "length sig = 65"
    and "sig ! 64 = 0 \<or> sig ! 64 = 1 \<or> sig ! 64 = 27 \<or> sig ! 64 = 28"
  shows "(adjust_v sig ! 64 = 27 \<or> adjust_v sig ! 64 = 28)
       \<and> (\<exists>e. RecoverAddress lib hash (hexutil_Encode sig) =
                Inl (Wrapped ''failed to recover public key'' (Lib e)))
       \<and> (\<exists>e. RecoverAddressFromMessage lib message (hexutil_Encode sig) =
                Inl (Wrapped ''failed to recover public key'' (Lib e)))"
proof -
  from recover_fails_27_28 [OF assms] obtain e
    where "SigToPub lib hash (adjust_v sig) = Inl e" by blast
  then have r1: "RecoverAddress lib hash (hexutil_Encode sig) =
                   Inl (Wrapped ''failed to recover public key'' (Lib e))"
    by (simp add: RecoverAddress_Encode [OF assms(2)])
  from recover_fails_27_28 [OF assms] obtain e'
    where "SigToPub lib (Keccak256 message) (adjust_v sig) = Inl e'" by blast
  then have r2: "RecoverAddressFromMessage lib message (hexutil_Encode sig) =
                   Inl (Wrapped ''failed to recover public key'' (Lib e'))"
    by (simp add: RecoverAddressFromMessage_Encode [OF assms(2)])
  from adjust_v_27_28 [OF assms(2,3)] r1 r2 show ?thesis by blast
qed

theorem recover_normalises_to_27_28_witness:
  "SigToPub_rejects_27_28 toy_crypto
   \<and> length (replicate 64 (1 :: byte) @ [0]) = 65
   \<and> (replicate 64 (1 :: byte) @ [0]) ! 64 = 0
   \<and> adjust_v (replicate 64 1 @ [0]) ! 64 = 27
   \<and> RecoverAddress toy_crypto (replicate 32 0) (hexutil_Encode (replicate 64 1 @ [0])) =
       Inl (Wrapped ''failed to recover public key'' (Lib ErrInvalidRecoveryID))"
proof -
  have len: "length (replicate 64 (1 :: byte) @ [0]) = 65" by simp
  have v0: "(replicate 64 (1 :: byte) @ [0]) ! 64 = 0" by (simp add: nth_append)
  then have v: "(replicate 64 (1 :: byte) @ [0]) ! 64 = 0 \<or> (replicate 64 (1 :: byte) @ [0]) ! 64 = 1
      \<or> (replicate 64 (1 :: byte) @ [0]) ! 64 = 27 \<or> (replicate 64 (1 :: byte) @ [0]) ! 64 = 28"
    by blast
  have a: "adjust_v (replicate 64 1 @ [0]) = replicate 64 1 @ [27]"
    by (simp add: adjust_v_def nth_append list_update_append)
  from recover_normalises_to_27_28 [OF toy_SigToPub_rejects len v, of "replicate 32 0" "[]"]
  obtain e where "RecoverAddress toy_crypto (replicate 32 0) (hexutil_Encode (replicate 64 1 @ [0])) =
       Inl (Wrapped ''failed to recover public key'' (Lib e))" by blast
  moreover have "RecoverAddress toy_crypto (replicate 32 0) (hexutil_Encode (replicate 64 1 @ [0])) =
       Inl (Wrapped ''failed to recover public key'' (Lib ErrInvalidRecoveryID))"
    by (simp add: RecoverAddress_Encode [OF len] a) (simp add: toy_crypto_def nth_append)
  ultimately show ?thesis using toy_SigToPub_rejects len v0 a by (simp add: nth_append)
qed

end
